theory Spec2Isabelle
  imports Main "HOL-Library.Sublist"
begin

section \<open>The Electron entry point (electron/main.js)\<close>

text \<open>
  The entry point keeps three module-level references (\<open>mainWindow\<close>, \<open>pythonProcess\<close>,
  \<open>nextProcess\<close>), spawns the Python backend and the Next.js frontend, polls each of
  them over HTTP until it answers, and sends \<open>SIGTERM\<close> to both on cleanup.

  Everything the handlers do to the outside world is recorded as a list of events, in
  the order in which they happen. A child-process object is a handle (a natural number
  chosen by the environment on \<open>spawn\<close>); a null reference is \<open>None\<close>.
\<close>

type_synonym handle = nat

datatype service = Backend | Frontend

datatype event =
    Log string
  | LogError string
  | LogExit service "int option" "string option"
  | Spawn service handle string "string list"
  | Kill handle string
  | HttpRequest nat string
  | Destroy
  | SetTimeout nat
  | Resolve bool
  | Reject nat nat
  | NewLoadingWindow
  | CloseLoadingWindow
  | NewMainWindow nat
  | SetApplicationMenu
  | LoadURL nat
  | AppQuit

record globals =
  mainWindow :: "nat option"
  pythonProcess :: "handle option"
  nextProcess :: "handle option"

definition BACKEND_PORT :: nat where
  "BACKEND_PORT = 8000"

definition FRONTEND_PORT :: nat where
  "FRONTEND_PORT = 3000"

subsection \<open>checkServer\<close>

text \<open>
  The network is a function from the number of a request to what happens to it: a
  response with some HTTP status after some latency in milliseconds, a connection error
  after some latency, or nothing at all, in which case the request option
  \<open>timeout: 2000\<close> raises the \<open>timeout\<close> event after 2000 ms.

  Time is the number of milliseconds since \<open>startTime\<close>, read from a clock that does not
  run backwards. \<open>poll env port timeout k t\<close> is the closure \<open>check\<close> called at
  elapsed time \<open>t\<close>, when it sends request \<open>k\<close>; it gives every event that follows
  from this call, each with the time at which it happens, in the order of time.
  \<^item> A response runs the response callback, which calls \<open>resolve(true)\<close>. The callback
    neither reads nor discards the response, so the socket stays open and idle, and 2000 ms
    later the \<open>timeout\<close> handler of the same request runs.
  \<^item> A connection error runs the \<open>error\<close> handler.
  \<^item> A request that gets no answer runs the \<open>timeout\<close> handler, whose
    \<open>req.destroy()\<close> makes the request emit \<open>error\<close>, so that the \<open>error\<close> handler
    runs as well, in the same millisecond.

  Either handler compares the elapsed time with the timeout and calls \<open>reject\<close> or
  schedules \<open>check\<close> 500 ms later; neither looks at whether the promise has settled.
  Two retries scheduled by one request run side by side: their events are merged by
  time, and their requests are numbered \<open>2 * k + 1\<close> and \<open>2 * k + 2\<close>.
\<close>

datatype outcome = Response nat nat | ConnError nat | SocketTimeout

datatype promise = Pending | Fulfilled bool | Rejected nat nat

definition probe_path :: "nat \<Rightarrow> string" where
  "probe_path port = (if port = BACKEND_PORT then ''/routes/health'' else ''/'')"

fun merge_timed :: "(nat \<times> event) list \<Rightarrow> (nat \<times> event) list \<Rightarrow> (nat \<times> event) list" where
  "merge_timed [] ys = ys"
| "merge_timed xs [] = xs"
| "merge_timed ((s, a) # xs) ((t, b) # ys) =
     (if s \<le> t then (s, a) # merge_timed xs ((t, b) # ys)
      else (t, b) # merge_timed ((s, a) # xs) ys)"

function poll :: "(nat \<Rightarrow> outcome) \<Rightarrow> nat \<Rightarrow> nat \<Rightarrow> nat \<Rightarrow> nat \<Rightarrow> (nat \<times> event) list" where
  "poll env port timeout k t =
     (t, HttpRequest port (probe_path port)) #
     (case env k of
        Response status d \<Rightarrow>
          (t + d, Resolve True) # (t + d + 2000, Destroy) #
          (if t + d + 2000 > timeout then [(t + d + 2000, Reject port timeout)]
           else (t + d + 2000, SetTimeout 500)
                # poll env port timeout (2 * k + 1) (t + d + 2000 + 500))
      | ConnError d \<Rightarrow>
          (if t + d > timeout then [(t + d, Reject port timeout)]
           else (t + d, SetTimeout 500) # poll env port timeout (2 * k + 1) (t + d + 500))
      | SocketTimeout \<Rightarrow>
          (t + 2000, Destroy) #
          (if t + 2000 > timeout
           then [(t + 2000, Reject port timeout), (t + 2000, Reject port timeout)]
           else (t + 2000, SetTimeout 500) # (t + 2000, SetTimeout 500)
                # merge_timed (poll env port timeout (2 * k + 1) (t + 2000 + 500))
                    (poll env port timeout (2 * k + 2) (t + 2000 + 500))))"
  by pat_completeness auto
termination
  by (relation "measure (\<lambda>(env, port, timeout, k, t). timeout + 1 - t)") auto

text \<open>
  A promise keeps the first call of \<open>resolve\<close> or \<open>reject\<close> and ignores the later ones.
  \<open>settle\<close> reads a run up to the event that settles the promise: the events so far, the
  state of the promise, and the time. This is where an \<open>await\<close> on the promise resumes.
\<close>

fun settles :: "event \<Rightarrow> bool" where
  "settles (Resolve b) = True"
| "settles (Reject p t) = True"
| "settles ev = False"

fun promise_of :: "event \<Rightarrow> promise" where
  "promise_of (Resolve b) = Fulfilled b"
| "promise_of (Reject p t) = Rejected p t"
| "promise_of ev = Pending"

fun settle :: "(nat \<times> event) list \<Rightarrow> event list \<times> promise \<times> nat" where
  "settle [] = ([], Pending, 0)"
| "settle ((t, ev) # evs) =
     (if settles ev then ([ev], promise_of ev, t)
      else (case settle evs of (es, p, t') \<Rightarrow> (ev # es, p, t')))"

definition check ::
  "(nat \<Rightarrow> outcome) \<Rightarrow> nat \<Rightarrow> nat \<Rightarrow> nat \<Rightarrow> nat \<Rightarrow> event list \<times> promise \<times> nat" where
  "check env port timeout k t = settle (poll env port timeout k t)"

definition checkServer :: "(nat \<Rightarrow> outcome) \<Rightarrow> nat \<Rightarrow> nat \<Rightarrow> event list \<times> promise \<times> nat" where
  "checkServer env port timeout = check env port timeout 0 0"

subsection \<open>Starting the services and the window\<close>

text \<open>
  What the runtime delivers to the module: the \<open>ready\<close> promise of the app, the app
  events \<open>window-all-closed\<close>, \<open>quit\<close> and \<open>activate\<close> (with the number of open
  windows that \<open>BrowserWindow.getAllWindows()\<close> reports), the \<open>exit\<close> of a child (with
  its code and signal), the \<open>closed\<close> event of the main window, and the two process
  events.
\<close>

datatype input =
    AppReady
  | WindowAllClosed
  | QuitEvent
  | Activate nat
  | BackendExit "int option" "string option"
  | FrontendExit "int option" "string option"
  | MainWindowClosed
  | UncaughtException
  | UnhandledRejection

text \<open>
  What the handlers read from outside the module: \<open>app.isPackaged\<close>,
  \<open>process.platform\<close>, the network as seen by the two probes, the child-process objects
  that the two \<open>spawn\<close> calls return, the window object that \<open>new BrowserWindow\<close>
  returns, and which children exit while the startup sequence is suspended at its first
  and at its second \<open>await\<close>. The working directory, the environment variables and the
  \<open>stdio\<close> option of \<open>spawn\<close> are left out, as are the handlers that only copy the
  children's output to the console.
\<close>

datatype child_exit = Exit service "int option" "string option"

record environment =
  isPackaged :: bool
  platform :: string
  backend_net :: "nat \<Rightarrow> outcome"
  frontend_net :: "nat \<Rightarrow> outcome"
  backend_child :: handle
  frontend_child :: handle
  window :: nat
  during_backend_wait :: "child_exit list"
  during_frontend_wait :: "child_exit list"

definition startBackend :: "environment \<Rightarrow> globals \<Rightarrow> event list \<times> globals" where
  "startBackend e g =
     (let pythonCmd = (if isPackaged e then ''python3'' else ''uv'');
          pythonArgs =
            (if isPackaged e
             then [''-m'', ''uvicorn'', ''main:app'', ''--host'', ''127.0.0.1'', ''--port'', ''8000'']
             else [''run'', ''uvicorn'', ''api.main:app'', ''--host'', ''127.0.0.1'', ''--port'',
                   ''8000''])
      in ([Log ''Starting Python backend...'',
           Spawn Backend (backend_child e) pythonCmd pythonArgs],
          g\<lparr>pythonProcess := Some (backend_child e)\<rparr>))"

definition startFrontend :: "environment \<Rightarrow> globals \<Rightarrow> event list \<times> globals" where
  "startFrontend e g =
     ([Log ''Starting Next.js frontend...'',
       (if isPackaged e
        then Spawn Frontend (frontend_child e) ''node'' [''server.js'']
        else Spawn Frontend (frontend_child e) ''pnpm'' [''start''])],
      g\<lparr>nextProcess := Some (frontend_child e)\<rparr>)"

definition createWindow :: "environment \<Rightarrow> globals \<Rightarrow> event list \<times> globals" where
  "createWindow e g =
     ([NewMainWindow (window e), SetApplicationMenu], g\<lparr>mainWindow := Some (window e)\<rparr>)"

subsection \<open>cleanup\<close>

definition cleanup :: "globals \<Rightarrow> event list \<times> globals" where
  "cleanup g =
     (let (evs1, g1) =
            (case pythonProcess g of
               Some h \<Rightarrow> ([Log ''Stopping backend...'', Kill h ''SIGTERM''],
                          g\<lparr>pythonProcess := None\<rparr>)
             | None \<Rightarrow> ([], g));
          (evs2, g2) =
            (case nextProcess g1 of
               Some h \<Rightarrow> ([Log ''Stopping frontend...'', Kill h ''SIGTERM''],
                          g1\<lparr>nextProcess := None\<rparr>)
             | None \<Rightarrow> ([], g1))
      in (Log ''Cleaning up...'' # evs1 @ evs2, g2))"

subsection \<open>The exit handlers of the children\<close>

text \<open>
  The \<open>exit\<close> handler that \<open>startBackend\<close> and \<open>startFrontend\<close> register on the
  child they spawn: it prints the code and the signal and sets the reference to null.
\<close>

fun on_exit :: "child_exit \<Rightarrow> globals \<Rightarrow> event list \<times> globals" where
  "on_exit (Exit Backend code signal) g =
     ([LogExit Backend code signal], g\<lparr>pythonProcess := None\<rparr>)"
| "on_exit (Exit Frontend code signal) g =
     ([LogExit Frontend code signal], g\<lparr>nextProcess := None\<rparr>)"

fun on_exits :: "child_exit list \<Rightarrow> globals \<Rightarrow> event list \<times> globals" where
  "on_exits [] g = ([], g)"
| "on_exits (x # xs) g =
     (case on_exit x g of
        (evs, g') \<Rightarrow> (case on_exits xs g' of (evs', g'') \<Rightarrow> (evs @ evs', g'')))"

subsection \<open>The startup sequence\<close>

text \<open>
  The body of \<open>app.whenReady().then(...)\<close>. A rejected probe is the exception that the
  \<open>try\<close> block catches; \<open>startup_failed\<close> is the \<open>catch\<close> block. While the sequence
  is suspended at an \<open>await\<close>, a child may exit: its \<open>exit\<close> handler runs then and sets
  the reference to null, so the code after the \<open>await\<close> works on the references as they
  are then. In the trace the events of these handlers are put after the events of the
  probe that is awaited. A delivery that ends the session (the \<open>quit\<close> event, an uncaught
  exception, the last window closed) is not followed by a resumption of the sequence and
  is not considered during the waits. Of each probe the trace has the events up to the one
  that settles its promise; what the probe's open requests do later is in \<open>poll\<close>, and
  it touches neither the references nor the windows. An \<open>await\<close> on a promise that
  stays pending would not resume.
\<close>

definition startup_failed :: "globals \<Rightarrow> event list \<times> globals" where
  "startup_failed g =
     (case cleanup g of
        (evs, g') \<Rightarrow>
          (LogError ''Failed to start services:'' # CloseLoadingWindow # evs @ [AppQuit], g'))"

definition whenReady :: "environment \<Rightarrow> globals \<Rightarrow> event list \<times> globals" where
  "whenReady e g =
     (case startBackend e g of (evs1, g1) \<Rightarrow>
       (case startFrontend e g1 of (evs2, g2) \<Rightarrow>
         (let pre = [Log ''Price Optimizer AI starting...'', NewLoadingWindow] @ evs1 @ evs2
                    @ [Log ''Waiting for backend to be ready...''];
              (evsb, pb, tb) = checkServer (backend_net e) BACKEND_PORT 60000;
              (evsc, g3) = on_exits (during_backend_wait e) g2
          in (case pb of
                Pending \<Rightarrow> (pre @ evsb @ evsc, g3)
              | Rejected p t \<Rightarrow>
                  (case startup_failed g3 of
                     (evsf, g4) \<Rightarrow> (pre @ evsb @ evsc @ evsf, g4))
              | Fulfilled b \<Rightarrow>
                  (let mid = pre @ evsb @ evsc
                             @ [Log ''Backend is ready!'',
                                Log ''Waiting for frontend to be ready...''];
                       (evsn, pn, tn) = checkServer (frontend_net e) FRONTEND_PORT 60000;
                       (evsd, g4) = on_exits (during_frontend_wait e) g3
                   in (case pn of
                         Pending \<Rightarrow> (mid @ evsn @ evsd, g4)
                       | Rejected p t \<Rightarrow>
                           (case startup_failed g4 of
                              (evsf, g5) \<Rightarrow> (mid @ evsn @ evsd @ evsf, g5))
                       | Fulfilled b' \<Rightarrow>
                           (case createWindow e g4 of
                              (evsw, g5) \<Rightarrow>
                                (mid @ evsn @ evsd
                                 @ [Log ''Frontend is ready!'', CloseLoadingWindow]
                                 @ evsw @ [LoadURL FRONTEND_PORT], g5))))))))"

subsection \<open>The event handlers\<close>

text \<open>
  What is registered on \<open>app\<close>, on \<open>process\<close>, on the two children and on the main
  window, as one dispatch function over what the runtime delivers; \<open>run\<close> takes a list
  of deliveries in order.
\<close>

fun handler :: "environment \<Rightarrow> input \<Rightarrow> globals \<Rightarrow> event list \<times> globals" where
  "handler e AppReady g = whenReady e g"
| "handler e WindowAllClosed g =
     (case cleanup g of
        (evs, g') \<Rightarrow> if platform e \<noteq> ''darwin'' then (evs @ [AppQuit], g') else (evs, g'))"
| "handler e QuitEvent g = cleanup g"
| "handler e (Activate n) g = (if n = 0 then createWindow e g else ([], g))"
| "handler e (BackendExit code signal) g = on_exit (Exit Backend code signal) g"
| "handler e (FrontendExit code signal) g = on_exit (Exit Frontend code signal) g"
| "handler e MainWindowClosed g = ([], g\<lparr>mainWindow := None\<rparr>)"
| "handler e UncaughtException g =
     (case cleanup g of (evs, g') \<Rightarrow> (LogError ''Uncaught exception:'' # evs @ [AppQuit], g'))"
| "handler e UnhandledRejection g = ([LogError ''Unhandled rejection at:''], g)"

fun run :: "environment \<Rightarrow> input list \<Rightarrow> globals \<Rightarrow> event list \<times> globals" where
  "run e [] g = ([], g)"
| "run e (i # is) g =
     (case handler e i g of
        (evs, g') \<Rightarrow> (case run e is g' of (evs', g'') \<Rightarrow> (evs @ evs', g'')))"

definition initial :: globals where
  "initial = \<lparr>mainWindow = None, pythonProcess = None, nextProcess = None\<rparr>"

text \<open>The handles spawned, and the handles signalled, in the order of the events.\<close>

fun started :: "event list \<Rightarrow> handle list" where
  "started [] = []"
| "started (Spawn s h c a # evs) = h # started evs"
| "started (ev # evs) = started evs"

fun signalled :: "event list \<Rightarrow> handle list" where
  "signalled [] = []"
| "signalled (Kill h s # evs) = h # signalled evs"
| "signalled (ev # evs) = signalled evs"

subsection \<open>Reading a run\<close>

declare poll.simps [simp del]

fun is_response :: "outcome \<Rightarrow> bool" where
  "is_response (Response status d) = True"
| "is_response (ConnError d) = False"
| "is_response SocketTimeout = False"

fun latency :: "outcome \<Rightarrow> nat" where
  "latency (Response status d) = d"
| "latency (ConnError d) = d"
| "latency SocketTimeout = 2000"


text \<open>
  What holds of every event of a run of \<open>poll\<close> that starts at time \<open>t\<close>: only \<open>true\<close>
  is ever resolved, a retry is only scheduled up to the timeout, and a rejection only
  happens after it.
\<close>

fun probe_event_ok :: "nat \<Rightarrow> nat \<Rightarrow> nat \<Rightarrow> nat \<times> event \<Rightarrow> bool" where
  "probe_event_ok port timeout t (T, HttpRequest q path) =
     (t \<le> T \<and> q = port \<and> path = probe_path port)"
| "probe_event_ok port timeout t (T, Destroy) = (t \<le> T)"
| "probe_event_ok port timeout t (T, SetTimeout ms) = (t \<le> T \<and> T \<le> timeout \<and> ms = 500)"
| "probe_event_ok port timeout t (T, Resolve b) = (t \<le> T \<and> b)"
| "probe_event_ok port timeout t (T, Reject p d) =
     (t \<le> T \<and> p = port \<and> d = timeout \<and> timeout < T)"
| "probe_event_ok port timeout t (T, ev) = False"


definition tracked :: "globals \<Rightarrow> handle list" where
  "tracked g =
     (case pythonProcess g of None \<Rightarrow> [] | Some h \<Rightarrow> [h])
     @ (case nextProcess g of None \<Rightarrow> [] | Some h \<Rightarrow> [h])"

fun is_probe :: "event \<Rightarrow> bool" where
  "is_probe (HttpRequest p path) = True"
| "is_probe Destroy = True"
| "is_probe (SetTimeout ms) = True"
| "is_probe (Resolve b) = True"
| "is_probe (Reject p t) = True"
| "is_probe ev = False"

fun forceful :: "event \<Rightarrow> bool" where
  "forceful (Kill h s) = (s \<noteq> ''SIGTERM'')"
| "forceful ev = False"

fun is_fulfilled :: "promise \<Rightarrow> bool" where
  "is_fulfilled (Fulfilled b) = True"
| "is_fulfilled p = False"

definition backend_probe :: "environment \<Rightarrow> event list \<times> promise \<times> nat" where
  "backend_probe e = checkServer (backend_net e) BACKEND_PORT 60000"

definition frontend_probe :: "environment \<Rightarrow> event list \<times> promise \<times> nat" where
  "frontend_probe e = checkServer (frontend_net e) FRONTEND_PORT 60000"

definition services_ready :: "environment \<Rightarrow> bool" where
  "services_ready e \<longleftrightarrow>
     is_fulfilled (fst (snd (backend_probe e))) \<and> is_fulfilled (fst (snd (frontend_probe e)))"

text \<open>
  A startup during which no child exits, and the references as they are when the wait
  for the backend ends.
\<close>

definition quiet_startup :: "environment \<Rightarrow> bool" where
  "quiet_startup e \<longleftrightarrow> during_backend_wait e = [] \<and> during_frontend_wait e = []"

definition after_backend_wait :: "environment \<Rightarrow> globals \<Rightarrow> event list \<times> globals" where
  "after_backend_wait e g =
     on_exits (during_backend_wait e)
       (g\<lparr>pythonProcess := Some (backend_child e), nextProcess := Some (frontend_child e)\<rparr>)"

section \<open>The operating system's side of a signal\<close>

text \<open>
  What \<open>kill\<close> does is outside the module: \<open>SIGKILL\<close> ends any process, \<open>SIGTERM\<close>
  ends a process unless it has installed a handler that ignores it, and any other signal
  is left out. \<open>os_effect\<close> applies the \<open>Kill\<close> events of a trace to a process table.
\<close>

record proc =
  alive :: bool
  ignores_term :: bool

definition deliver :: "string \<Rightarrow> proc \<Rightarrow> proc" where
  "deliver s p =
     (if s = ''SIGKILL'' then p\<lparr>alive := False\<rparr>
      else if s = ''SIGTERM'' \<and> \<not> ignores_term p then p\<lparr>alive := False\<rparr>
      else p)"

fun os_effect :: "event list \<Rightarrow> (handle \<Rightarrow> proc) \<Rightarrow> (handle \<Rightarrow> proc)" where
  "os_effect [] ps = ps"
| "os_effect (Kill h s # evs) ps = os_effect evs (ps(h := deliver s (ps h)))"
| "os_effect (ev # evs) ps = os_effect evs ps"

section \<open>The launcher shell script\<close>

text \<open>
  The script runs under \<open>set -e\<close> with \<open>cleanup\<close> trapped on \<open>EXIT\<close>. It starts the
  backend in the background, polls it with \<open>curl\<close> at most 30 times one second apart,
  starts the frontend in the background, polls it the same way, runs Electron in the
  foreground and waits. The environment says whether \<open>cd "$PROJECT_DIR/api"\<close> succeeds,
  whether the \<open>i\<close>-th \<open>curl\<close> of each service succeeds, and the exit status of
  \<open>pnpm electron:start\<close>. The result is the trace and the exit status of the script.
\<close>

datatype sh_event =
    Echo string
  | Background service
  | Curl string
  | Sleep nat
  | Electron
  | Wait
  | PkillChildren

record sh_environment =
  api_dir :: bool
  curl_backend :: "nat \<Rightarrow> bool"
  curl_frontend :: "nat \<Rightarrow> bool"
  electron_status :: nat

text \<open>
  \<open>wait_ready url msg curl i k\<close> is the loop \<open>for i in {1..30}\<close> from iteration \<open>i\<close>
  with \<open>k\<close> iterations left: a successful \<open>curl\<close> breaks out, a failed one sleeps, and
  the loop ends without an error when the iterations are used up.
\<close>

fun wait_ready :: "string \<Rightarrow> string \<Rightarrow> (nat \<Rightarrow> bool) \<Rightarrow> nat \<Rightarrow> nat \<Rightarrow> sh_event list" where
  "wait_ready url msg curl i 0 = []"
| "wait_ready url msg curl i (Suc k) =
     Curl url # (if curl i then [Echo msg] else Sleep 1 # wait_ready url msg curl (Suc i) k)"

text \<open>
  The trap: \<open>cleanup\<close> ends with \<open>exit 0\<close>, which replaces the status the shell was
  exiting with.
\<close>

definition sh_cleanup :: "nat \<Rightarrow> sh_event list \<times> nat" where
  "sh_cleanup pending = ([Echo ''Shutting down services...'', PkillChildren], 0)"

definition start_script :: "sh_environment \<Rightarrow> sh_event list \<times> nat" where
  "start_script e =
     (let intro = [Echo ''Starting Price Optimizer AI...'',
                   Echo ''Starting Python backend on port 8000...'']
      in if \<not> api_dir e
         then (case sh_cleanup 1 of (evs, status) \<Rightarrow> (intro @ evs, status))
         else
           (let body =
                  intro
                  @ [Background Backend, Echo ''Waiting for backend to be ready...'']
                  @ wait_ready ''http://localhost:8000/routes/health'' ''Backend is ready!''
                      (curl_backend e) 1 30
                  @ [Echo ''Starting Next.js frontend on port 3000...'', Background Frontend,
                     Echo ''Waiting for frontend to be ready...'']
                  @ wait_ready ''http://localhost:3000'' ''Frontend is ready!''
                      (curl_frontend e) 1 30
                  @ [Echo ''Starting Electron app...'', Electron]
            in if electron_status e \<noteq> 0
               then (case sh_cleanup (electron_status e) of
                       (evs, status) \<Rightarrow> (body @ evs, status))
               else (case sh_cleanup 0 of (evs, status) \<Rightarrow> (body @ Wait # evs, status))))"

section \<open>Concrete runs\<close>

definition refusing :: "nat \<Rightarrow> outcome" where
  "refusing k = ConnError 1"


definition healthy :: "nat \<Rightarrow> outcome" where
  "healthy k = Response 200 5"



definition racing :: "nat \<Rightarrow> outcome" where
  "racing k = (if k = 0 then SocketTimeout else if k = 1 then ConnError 600 else Response 200 700)"


definition dev_env :: environment where
  "dev_env = \<lparr>isPackaged = False, platform = ''linux'', backend_net = healthy,
     frontend_net = healthy, backend_child = 1, frontend_child = 2, window = 7,
     during_backend_wait = [], during_frontend_wait = []\<rparr>"

definition mac_env :: environment where
  "mac_env = dev_env\<lparr>platform := ''darwin''\<rparr>"

definition dead_backend_env :: environment where
  "dead_backend_env = dev_env\<lparr>backend_net := refusing\<rparr>"

definition crashed_backend_env :: environment where
  "crashed_backend_env =
     dead_backend_env\<lparr>during_backend_wait := [Exit Backend (Some 1) None]\<rparr>"

definition both_running :: globals where
  "both_running = \<lparr>mainWindow = Some 7, pythonProcess = Some 1, nextProcess = Some 2\<rparr>"

definition stubborn :: "handle \<Rightarrow> proc" where
  "stubborn h = \<lparr>alive = True, ignores_term = (h = 1)\<rparr>"

definition never_up :: "nat \<Rightarrow> bool" where
  "never_up i = False"

definition dead_backend_sh :: sh_environment where
  "dead_backend_sh = \<lparr>api_dir = True, curl_backend = never_up, curl_frontend = never_up,
     electron_status = 1\<rparr>"

section \<open>Properties of the readiness probe\<close>

text \<open>
  The six ways one call of \<open>check\<close> continues, and the induction rule that follows
  them: every retry runs at least 500 ms later than the call that schedules it, so the
  recursion ends.
\<close>

lemma poll_response_late:
  "env k = Response status d \<Longrightarrow> timeout < t + d + 2000 \<Longrightarrow>
   poll env port timeout k t =
     [(t, HttpRequest port (probe_path port)), (t + d, Resolve True),
      (t + d + 2000, Destroy), (t + d + 2000, Reject port timeout)]"
  by (simp add: poll.simps [of env port timeout k t])

lemma poll_response_retry:
  "env k = Response status d \<Longrightarrow> \<not> timeout < t + d + 2000 \<Longrightarrow>
   poll env port timeout k t =
     (t, HttpRequest port (probe_path port)) # (t + d, Resolve True)
     # (t + d + 2000, Destroy) # (t + d + 2000, SetTimeout 500)
     # poll env port timeout (2 * k + 1) (t + d + 2000 + 500)"
  by (simp add: poll.simps [of env port timeout k t])

lemma poll_error_late:
  "env k = ConnError d \<Longrightarrow> timeout < t + d \<Longrightarrow>
   poll env port timeout k t =
     [(t, HttpRequest port (probe_path port)), (t + d, Reject port timeout)]"
  by (simp add: poll.simps [of env port timeout k t])

lemma poll_error_retry:
  "env k = ConnError d \<Longrightarrow> \<not> timeout < t + d \<Longrightarrow>
   poll env port timeout k t =
     (t, HttpRequest port (probe_path port)) # (t + d, SetTimeout 500)
     # poll env port timeout (2 * k + 1) (t + d + 500)"
  by (simp add: poll.simps [of env port timeout k t])

lemma poll_timeout_late:
  "env k = SocketTimeout \<Longrightarrow> timeout < t + 2000 \<Longrightarrow>
   poll env port timeout k t =
     [(t, HttpRequest port (probe_path port)), (t + 2000, Destroy),
      (t + 2000, Reject port timeout), (t + 2000, Reject port timeout)]"
  by (simp add: poll.simps [of env port timeout k t])

lemma poll_timeout_retry:
  "env k = SocketTimeout \<Longrightarrow> \<not> timeout < t + 2000 \<Longrightarrow>
   poll env port timeout k t =
     (t, HttpRequest port (probe_path port)) # (t + 2000, Destroy)
     # (t + 2000, SetTimeout 500) # (t + 2000, SetTimeout 500)
     # merge_timed (poll env port timeout (2 * k + 1) (t + 2000 + 500))
         (poll env port timeout (2 * k + 2) (t + 2000 + 500))"
  by (simp add: poll.simps [of env port timeout k t])

lemma poll_induct
  [case_names response_late response_retry error_late error_retry timeout_late timeout_retry]:
  assumes "\<And>k t status d. env k = Response status d \<Longrightarrow> timeout < t + d + 2000 \<Longrightarrow> P k t"
    and "\<And>k t status d. env k = Response status d \<Longrightarrow> \<not> timeout < t + d + 2000 \<Longrightarrow>
           P (2 * k + 1) (t + d + 2000 + 500) \<Longrightarrow> P k t"
    and "\<And>k t d. env k = ConnError d \<Longrightarrow> timeout < t + d \<Longrightarrow> P k t"
    and "\<And>k t d. env k = ConnError d \<Longrightarrow> \<not> timeout < t + d \<Longrightarrow>
           P (2 * k + 1) (t + d + 500) \<Longrightarrow> P k t"
    and "\<And>k t. env k = SocketTimeout \<Longrightarrow> timeout < t + 2000 \<Longrightarrow> P k t"
    and "\<And>k t. env k = SocketTimeout \<Longrightarrow> \<not> timeout < t + 2000 \<Longrightarrow>
           P (2 * k + 1) (t + 2000 + 500) \<Longrightarrow> P (2 * k + 2) (t + 2000 + 500) \<Longrightarrow> P k t"
  shows "P k t"
proof (induction "timeout + 1 - t" arbitrary: k t rule: less_induct)
  case less
  show ?case
  proof (cases "env k")
    case (Response status d)
    show ?thesis
    proof (cases "timeout < t + d + 2000")
      case True
      with Response show ?thesis by (rule assms(1))
    next
      case False
      then have "timeout + 1 - (t + d + 2000 + 500) < timeout + 1 - t" by arith
      then have "P (2 * k + 1) (t + d + 2000 + 500)" by (rule less)
      with Response False show ?thesis by (rule assms(2))
    qed
  next
    case (ConnError d)
    show ?thesis
    proof (cases "timeout < t + d")
      case True
      with ConnError show ?thesis by (rule assms(3))
    next
      case False
      then have "timeout + 1 - (t + d + 500) < timeout + 1 - t" by arith
      then have "P (2 * k + 1) (t + d + 500)" by (rule less)
      with ConnError False show ?thesis by (rule assms(4))
    qed
  next
    case SocketTimeout
    show ?thesis
    proof (cases "timeout < t + 2000")
      case True
      with SocketTimeout show ?thesis by (rule assms(5))
    next
      case False
      then have "timeout + 1 - (t + 2000 + 500) < timeout + 1 - t" by arith
      then have "P (2 * k + 1) (t + 2000 + 500)" and "P (2 * k + 2) (t + 2000 + 500)"
        by (rule less)+
      with SocketTimeout False show ?thesis by (rule assms(6))
    qed
  qed
qed

lemma set_merge_timed: "set (merge_timed xs ys) = set xs \<union> set ys"
  by (induction xs ys rule: merge_timed.induct) auto


lemma probe_event_ok_earlier:
  "probe_event_ok port timeout t' x \<Longrightarrow> t \<le> t' \<Longrightarrow> probe_event_ok port timeout t x"
  by (induction port timeout t' x rule: probe_event_ok.induct) simp_all


lemma poll_ok: "\<forall>x \<in> set (poll env port timeout k t). probe_event_ok port timeout t x"
proof (induction k t rule: poll_induct [where env = env and timeout = timeout])
  case (response_late k t status d)
  then show ?case by (simp add: poll_response_late)
next
  case (response_retry k t status d)
  then show ?case
    by (auto simp add: poll_response_retry intro: probe_event_ok_earlier)
next
  case (error_late k t d)
  then show ?case by (simp add: poll_error_late)
next
  case (error_retry k t d)
  then show ?case by (auto simp add: poll_error_retry intro: probe_event_ok_earlier)
next
  case (timeout_late k t)
  then show ?case by (simp add: poll_timeout_late)
next
  case (timeout_retry k t)
  then show ?case
    by (auto simp add: poll_timeout_retry set_merge_timed intro: probe_event_ok_earlier)
qed


lemma poll_settles: "\<exists>x \<in> set (poll env port timeout k t). settles (snd x)"
proof (induction k t rule: poll_induct [where env = env and timeout = timeout])
  case (response_late k t status d)
  then show ?case by (simp add: poll_response_late)
next
  case (response_retry k t status d)
  then show ?case by (simp add: poll_response_retry)
next
  case (error_late k t d)
  then show ?case by (simp add: poll_error_late)
next
  case (error_retry k t d)
  then show ?case by (simp add: poll_error_retry)
next
  case (timeout_late k t)
  then show ?case by (simp add: poll_timeout_late)
next
  case (timeout_retry k t)
  then show ?case by (auto simp add: poll_timeout_retry set_merge_timed)
qed

lemma poll_head:
  "\<exists>rest. poll env port timeout k t = (t, HttpRequest port (probe_path port)) # rest"
  by (simp add: poll.simps [of env port timeout k t])


lemma settle_first:
  "\<exists>x \<in> set tr. settles (snd x) \<Longrightarrow>
   \<exists>T ev. (T, ev) \<in> set tr \<and> settles ev \<and> snd (settle tr) = (promise_of ev, T) \<and>
     fst (settle tr) \<noteq> [] \<and> last (fst (settle tr)) = ev"
proof (induction tr)
  case Nil
  then show ?case by simp
next
  case (Cons x tr)
  obtain t ev where x: "x = (t, ev)" by (cases x)
  show ?case
  proof (cases "settles ev")
    case True
    with x show ?thesis by auto
  next
    case False
    with Cons.prems x have "\<exists>y \<in> set tr. settles (snd y)" by auto
    then obtain T ev' where "(T, ev') \<in> set tr" "settles ev'"
      "snd (settle tr) = (promise_of ev', T)" "fst (settle tr) \<noteq> []"
      "last (fst (settle tr)) = ev'"
      using Cons.IH by blast
    with False x show ?thesis by (auto simp add: case_prod_beta)
  qed
qed

lemma settle_events: "ev \<in> set (fst (settle tr)) \<Longrightarrow> \<exists>T. (T, ev) \<in> set tr"
proof (induction tr)
  case Nil
  then show ?case by simp
next
  case (Cons x tr)
  then show ?case by (cases x) (auto simp add: case_prod_beta split: if_splits)
qed

lemma settle_quiet_before: "ev \<in> set (butlast (fst (settle tr))) \<Longrightarrow> \<not> settles ev"
proof (induction tr)
  case Nil
  then show ?case by simp
next
  case (Cons x tr)
  then show ?case by (cases x) (auto simp add: case_prod_beta split: if_splits)
qed

lemma check_settled:
  "\<exists>T ev. (T, ev) \<in> set (poll env port timeout k t) \<and> settles ev \<and>
     snd (check env port timeout k t) = (promise_of ev, T) \<and>
     fst (check env port timeout k t) \<noteq> [] \<and> last (fst (check env port timeout k t)) = ev"
  unfolding check_def by (rule settle_first) (rule poll_settles)

lemma check_promise:
  "fst (snd (check env port timeout k t)) = Fulfilled True \<or>
   (fst (snd (check env port timeout k t)) = Rejected port timeout \<and>
    timeout < snd (snd (check env port timeout k t)))"
proof -
  obtain T ev where x: "(T, ev) \<in> set (poll env port timeout k t)" "settles ev"
    "snd (check env port timeout k t) = (promise_of ev, T)"
    using check_settled by blast
  from x(1) have "probe_event_ok port timeout t (T, ev)" using poll_ok by blast
  with x(2,3) show ?thesis by (cases ev) simp_all
qed

lemma check_not_pending: "fst (snd (check env port timeout k t)) \<noteq> Pending"
  using check_promise [of env port timeout k t] by auto

lemma check_is_probe: "ev \<in> set (fst (check env port timeout k t)) \<Longrightarrow> is_probe ev"
proof -
  assume "ev \<in> set (fst (check env port timeout k t))"
  then obtain T where "(T, ev) \<in> set (poll env port timeout k t)"
    unfolding check_def using settle_events by blast
  then have "probe_event_ok port timeout t (T, ev)" using poll_ok by blast
  then show ?thesis by (cases ev) simp_all
qed

lemma check_port:
  "HttpRequest q path \<in> set (fst (check env port timeout k t)) \<Longrightarrow> q = port"
proof -
  assume "HttpRequest q path \<in> set (fst (check env port timeout k t))"
  then obtain T where "(T, HttpRequest q path) \<in> set (poll env port timeout k t)"
    unfolding check_def using settle_events by blast
  then have "probe_event_ok port timeout t (T, HttpRequest q path)" using poll_ok by blast
  then show ?thesis by simp
qed

lemma check_head:
  "\<exists>rest. fst (check env port timeout k t) = HttpRequest port (probe_path port) # rest"
proof -
  obtain rest where "poll env port timeout k t = (t, HttpRequest port (probe_path port)) # rest"
    using poll_head by blast
  then show ?thesis by (simp add: check_def case_prod_beta)
qed

lemma check_response:
  "env k = Response status d \<Longrightarrow>
   check env port timeout k t =
     ([HttpRequest port (probe_path port), Resolve True], Fulfilled True, t + d)"
  by (cases "timeout < t + d + 2000")
     (simp_all add: check_def poll_response_late poll_response_retry)


text \<open>
  On a network where every request fails, nothing is resolved, and every rejection comes
  when a request has run its full course: a request sent at \<open>s\<close> fails at \<open>s\<close> plus its
  latency, and only a failure after the timeout rejects.
\<close>

lemma poll_failing:
  assumes "\<forall>j. \<not> is_response (env j)" and "\<forall>j. latency (env j) \<le> L"
  shows "t \<le> timeout + 500 \<Longrightarrow>
     \<forall>x \<in> set (poll env port timeout k t).
       snd x \<noteq> Resolve True \<and> (settles (snd x) \<longrightarrow> fst x \<le> timeout + 500 + L)"
proof (induction k t rule: poll_induct [where env = env and timeout = timeout])
  case (response_late k t status d)
  with assms(1) [rule_format, of k] show ?case by simp
next
  case (response_retry k t status d)
  with assms(1) [rule_format, of k] show ?case by simp
next
  case (error_late k t d)
  with assms(2) [rule_format, of k] show ?case by (simp add: poll_error_late)
next
  case (error_retry k t d)
  then show ?case by (simp add: poll_error_retry)
next
  case (timeout_late k t)
  with assms(2) [rule_format, of k] show ?case by (simp add: poll_timeout_late)
next
  case (timeout_retry k t)
  then show ?case by (auto simp add: poll_timeout_retry set_merge_timed)
qed




lemma check_failing:
  assumes "\<forall>j. \<not> is_response (env j)" and "\<forall>j. latency (env j) \<le> L"
  shows "fst (snd (check env port timeout k 0)) = Rejected port timeout \<and>
     timeout < snd (snd (check env port timeout k 0)) \<and>
     snd (snd (check env port timeout k 0)) \<le> timeout + 500 + L"
proof -
  obtain T ev where x: "(T, ev) \<in> set (poll env port timeout k 0)" "settles ev"
    "snd (check env port timeout k 0) = (promise_of ev, T)"
    using check_settled by blast
  have "snd (T, ev) \<noteq> Resolve True \<and> (settles (snd (T, ev)) \<longrightarrow> fst (T, ev) \<le> timeout + 500 + L)"
    using poll_failing [OF assms, of 0 timeout port k] x(1) by blast
  with x(2) have nr: "ev \<noteq> Resolve True" and le: "T \<le> timeout + 500 + L" by simp_all
  from x(3) have "fst (snd (check env port timeout k 0)) = promise_of ev" by simp
  with check_promise [of env port timeout k 0] nr x(2,3) le show ?thesis
    by (cases ev) auto
qed








text \<open>
  Two retries that run side by side can settle the promise in either order. Here the
  first request gets no answer, so that at 2000 ms both its \<open>timeout\<close> handler and,
  through \<open>req.destroy()\<close>, its \<open>error\<close> handler schedule a retry, and at 2500 ms two
  requests go out. One fails at 3100 ms, after the timeout of 3000 ms, and rejects the
  promise; the other receives a response at 3200 ms, whose \<open>resolve(true)\<close> has no
  effect any more. The answered request runs its \<open>timeout\<close> handler 2000 ms later.
\<close>

lemma late_response_after_rejection:
  "poll racing 8000 3000 0 0 =
     [(0, HttpRequest 8000 ''/routes/health''), (2000, Destroy), (2000, SetTimeout 500),
      (2000, SetTimeout 500), (2500, HttpRequest 8000 ''/routes/health''),
      (2500, HttpRequest 8000 ''/routes/health''), (3100, Reject 8000 3000),
      (3200, Resolve True), (5200, Destroy), (5200, Reject 8000 3000)] \<and>
   checkServer racing 8000 3000 =
     ([HttpRequest 8000 ''/routes/health'', Destroy, SetTimeout 500, SetTimeout 500,
       HttpRequest 8000 ''/routes/health'', HttpRequest 8000 ''/routes/health'',
       Reject 8000 3000],
      Rejected 8000 3000, 3100)"
  by (simp add: checkServer_def check_def poll.simps racing_def probe_path_def
      BACKEND_PORT_def)

section \<open>Properties of cleanup and of the exit handlers\<close>

lemma started_append: "started (xs @ ys) = started xs @ started ys"
  by (induction xs rule: started.induct) simp_all

lemma signalled_append: "signalled (xs @ ys) = signalled xs @ signalled ys"
  by (induction xs rule: signalled.induct) simp_all

lemma started_probe: "\<forall>ev \<in> set evs. is_probe ev \<Longrightarrow> started evs = []"
  by (induction evs rule: started.induct) simp_all

lemma signalled_probe: "\<forall>ev \<in> set evs. is_probe ev \<Longrightarrow> signalled evs = []"
  by (induction evs rule: signalled.induct) simp_all

lemma cleanup_signalled: "signalled (fst (cleanup g)) = tracked g"
  by (simp add: cleanup_def tracked_def split: option.splits)

lemma cleanup_started: "started (fst (cleanup g)) = []"
  by (simp add: cleanup_def split: option.splits)

lemma cleanup_globals: "snd (cleanup g) = g\<lparr>pythonProcess := None, nextProcess := None\<rparr>"
  by (simp add: cleanup_def split: option.splits)

lemma cleanup_untracked:
  "pythonProcess g = None \<Longrightarrow> nextProcess g = None \<Longrightarrow> cleanup g = ([Log ''Cleaning up...''], g)"
  by (simp add: cleanup_def)

lemma cleanup_quit: "AppQuit \<notin> set (fst (cleanup g))"
  by (simp add: cleanup_def split: option.splits)

lemma cleanup_again: "cleanup (snd (cleanup g)) = ([Log ''Cleaning up...''], snd (cleanup g))"
  by (rule cleanup_untracked) (simp_all add: cleanup_globals)

lemma cleanup_gentle: "ev \<in> set (fst (cleanup g)) \<Longrightarrow> \<not> forceful ev \<and> \<not> is_probe ev"
  by (auto simp add: cleanup_def split: option.splits)

lemma cleanup_plain: "ev \<in> set (fst (cleanup g)) \<Longrightarrow> ev \<noteq> LoadURL p \<and> ev \<noteq> AppQuit"
  by (auto simp add: cleanup_def split: option.splits)

lemma os_effect_cleanup:
  "h \<in> set (tracked g) \<Longrightarrow> \<not> ignores_term (ps h) \<Longrightarrow>
   \<not> alive (os_effect (fst (cleanup g)) ps h)"
  by (auto simp add: cleanup_def tracked_def deliver_def split: option.splits)

lemma run_quit_untracked:
  "pythonProcess g = None \<Longrightarrow> nextProcess g = None \<Longrightarrow>
   run e (replicate n QuitEvent) g = (replicate n (Log ''Cleaning up...''), g)"
  by (induction n) (simp_all add: cleanup_untracked)

lemma run_two:
  "run e [i, j] g =
     (fst (handler e i g) @ fst (handler e j (snd (handler e i g))),
      snd (handler e j (snd (handler e i g))))"
  by (simp add: case_prod_beta)

lemma startup_failed_signalled: "signalled (fst (startup_failed g)) = tracked g"
  by (simp add: startup_failed_def case_prod_beta signalled_append cleanup_signalled)

lemma startup_failed_started: "started (fst (startup_failed g)) = []"
  by (simp add: startup_failed_def case_prod_beta started_append cleanup_started)

lemma startup_failed_globals:
  "snd (startup_failed g) = g\<lparr>pythonProcess := None, nextProcess := None\<rparr>"
  by (simp add: startup_failed_def case_prod_beta cleanup_globals)

lemma startup_failed_last: "last (fst (startup_failed g)) = AppQuit"
  by (simp add: startup_failed_def case_prod_beta)

lemma startup_failed_events:
  "ev \<in> set (fst (startup_failed g)) \<Longrightarrow>
   \<not> is_probe ev \<and> ev \<noteq> LoadURL p \<and> ev \<noteq> NewMainWindow w"
  by (auto simp add: startup_failed_def cleanup_def case_prod_beta split: option.splits)

text \<open>What an exit handler can and cannot do, and the same for a list of exits.\<close>

lemma on_exit_started: "started (fst (on_exit x g)) = []"
  by (induction x g rule: on_exit.induct) simp_all

lemma on_exit_events:
  "ev \<in> set (fst (on_exit x g)) \<Longrightarrow>
   \<not> is_probe ev \<and> ev \<noteq> LoadURL p \<and> ev \<noteq> NewMainWindow w \<and> ev \<noteq> AppQuit"
  by (induction x g rule: on_exit.induct) auto

lemma on_exit_tracked:
  "subseq (signalled (fst (on_exit x g)) @ tracked (snd (on_exit x g))) (tracked g)"
  by (induction x g rule: on_exit.induct) (auto simp add: tracked_def split: option.splits)

lemma on_exits_started: "started (fst (on_exits xs g)) = []"
  by (induction xs arbitrary: g) (simp_all add: case_prod_beta started_append on_exit_started)

lemma on_exits_signalled: "signalled (fst (on_exits xs g)) = []"
proof (induction xs arbitrary: g)
  case Nil
  then show ?case by simp
next
  case (Cons x xs)
  have "signalled (fst (on_exit x g)) = []" by (induction x g rule: on_exit.induct) simp_all
  with Cons show ?case by (simp add: case_prod_beta signalled_append)
qed

lemma on_exits_events:
  "ev \<in> set (fst (on_exits xs g)) \<Longrightarrow>
   \<not> is_probe ev \<and> ev \<noteq> LoadURL p \<and> ev \<noteq> NewMainWindow w \<and> ev \<noteq> AppQuit"
proof (induction xs arbitrary: g)
  case Nil
  then show ?case by simp
next
  case (Cons x xs)
  then show ?case using on_exit_events [of ev x g p w] by (auto simp add: case_prod_beta)
qed

lemma subseq_chain:
  assumes "subseq (s1 @ t1) t0" and "subseq (s2 @ t2) t1"
  shows "subseq (s1 @ s2 @ t2) t0"
proof -
  from assms(2) have "subseq (s1 @ s2 @ t2) (s1 @ t1)"
    by (simp add: list_emb_append_mono)
  with assms(1) show ?thesis by (rule subseq_order.order_trans [rotated])
qed

lemma on_exits_tracked:
  "subseq (signalled (fst (on_exits xs g)) @ tracked (snd (on_exits xs g))) (tracked g)"
proof (induction xs arbitrary: g)
  case Nil
  then show ?case by simp
next
  case (Cons x xs)
  have "subseq (signalled (fst (on_exit x g))
      @ signalled (fst (on_exits xs (snd (on_exit x g))))
      @ tracked (snd (on_exits xs (snd (on_exit x g))))) (tracked g)"
    using on_exit_tracked Cons.IH by (rule subseq_chain)
  then show ?case by (simp add: case_prod_beta signalled_append)
qed

section \<open>Properties of the startup sequence\<close>

lemma checkServer_started: "started (fst (checkServer env port timeout)) = []"
  unfolding checkServer_def using check_is_probe by (intro started_probe) blast

lemma checkServer_signalled: "signalled (fst (checkServer env port timeout)) = []"
  unfolding checkServer_def using check_is_probe by (intro signalled_probe) blast

lemma checkServer_is_probe: "ev \<in> set (fst (checkServer env port timeout)) \<Longrightarrow> is_probe ev"
  unfolding checkServer_def by (rule check_is_probe)

lemma checkServer_port:
  "q \<noteq> port \<Longrightarrow> HttpRequest q path \<notin> set (fst (checkServer env port timeout))"
  unfolding checkServer_def using check_port by blast

lemma checkServer_not_pending: "fst (snd (checkServer env port timeout)) \<noteq> Pending"
  unfolding checkServer_def by (rule check_not_pending)

lemma not_fulfilled_rejected:
  "\<not> is_fulfilled (fst (snd (checkServer env port timeout))) \<Longrightarrow>
   fst (snd (checkServer env port timeout)) = Rejected port timeout"
  unfolding checkServer_def using check_promise [of env port timeout 0 0] by auto

lemma fulfilled_true:
  "is_fulfilled (fst (snd (checkServer env port timeout))) \<Longrightarrow>
   fst (snd (checkServer env port timeout)) = Fulfilled True"
  unfolding checkServer_def using check_promise [of env port timeout 0 0] by auto

lemma takeWhile_before_probe:
  assumes "\<forall>ev \<in> set pre. \<not> is_probe ev"
  shows "takeWhile (\<lambda>ev. \<not> is_probe ev) (pre @ fst (checkServer env port timeout) @ rest) = pre"
proof -
  obtain tl where "fst (checkServer env port timeout) = HttpRequest port (probe_path port) # tl"
    unfolding checkServer_def using check_head by blast
  with assms show ?thesis by (simp add: takeWhile_append2)
qed

text \<open>The startup sequence, by the way its two probes settle.\<close>

lemma whenReady_backend_rejected:
  assumes "\<not> is_fulfilled (fst (snd (backend_probe e)))"
  shows "whenReady e g =
     ([Log ''Price Optimizer AI starting...'', NewLoadingWindow]
      @ fst (startBackend e g) @ fst (startFrontend e (snd (startBackend e g)))
      @ [Log ''Waiting for backend to be ready...'']
      @ fst (backend_probe e) @ fst (after_backend_wait e g)
      @ fst (startup_failed (snd (after_backend_wait e g))),
      snd (startup_failed (snd (after_backend_wait e g))))"
proof -
  from assms have "fst (snd (checkServer (backend_net e) BACKEND_PORT 60000)) =
      Rejected BACKEND_PORT 60000"
    unfolding backend_probe_def by (rule not_fulfilled_rejected)
  then show ?thesis
    by (simp add: whenReady_def Let_def case_prod_beta backend_probe_def after_backend_wait_def
        startBackend_def startFrontend_def)
qed

lemma whenReady_frontend_rejected:
  assumes "is_fulfilled (fst (snd (backend_probe e)))"
    and "\<not> is_fulfilled (fst (snd (frontend_probe e)))"
  shows "whenReady e g =
     ([Log ''Price Optimizer AI starting...'', NewLoadingWindow]
      @ fst (startBackend e g) @ fst (startFrontend e (snd (startBackend e g)))
      @ [Log ''Waiting for backend to be ready...'']
      @ fst (backend_probe e) @ fst (after_backend_wait e g)
      @ [Log ''Backend is ready!'', Log ''Waiting for frontend to be ready...'']
      @ fst (frontend_probe e)
      @ fst (on_exits (during_frontend_wait e) (snd (after_backend_wait e g)))
      @ fst (startup_failed
               (snd (on_exits (during_frontend_wait e) (snd (after_backend_wait e g))))),
      snd (startup_failed
             (snd (on_exits (during_frontend_wait e) (snd (after_backend_wait e g))))))"
proof -
  from assms(1) have "fst (snd (checkServer (backend_net e) BACKEND_PORT 60000)) = Fulfilled True"
    unfolding backend_probe_def by (rule fulfilled_true)
  moreover from assms(2) have "fst (snd (checkServer (frontend_net e) FRONTEND_PORT 60000)) =
      Rejected FRONTEND_PORT 60000"
    unfolding frontend_probe_def by (rule not_fulfilled_rejected)
  ultimately show ?thesis
    by (simp add: whenReady_def Let_def case_prod_beta backend_probe_def frontend_probe_def
        after_backend_wait_def startBackend_def startFrontend_def)
qed

lemma whenReady_ready:
  assumes "services_ready e"
  shows "whenReady e g =
     ([Log ''Price Optimizer AI starting...'', NewLoadingWindow]
      @ fst (startBackend e g) @ fst (startFrontend e (snd (startBackend e g)))
      @ [Log ''Waiting for backend to be ready...'']
      @ fst (backend_probe e) @ fst (after_backend_wait e g)
      @ [Log ''Backend is ready!'', Log ''Waiting for frontend to be ready...'']
      @ fst (frontend_probe e)
      @ fst (on_exits (during_frontend_wait e) (snd (after_backend_wait e g)))
      @ [Log ''Frontend is ready!'', CloseLoadingWindow]
      @ fst (createWindow e
               (snd (on_exits (during_frontend_wait e) (snd (after_backend_wait e g)))))
      @ [LoadURL FRONTEND_PORT],
      snd (createWindow e
             (snd (on_exits (during_frontend_wait e) (snd (after_backend_wait e g))))))"
proof -
  from assms have "fst (snd (checkServer (backend_net e) BACKEND_PORT 60000)) = Fulfilled True"
    unfolding services_ready_def backend_probe_def by (intro fulfilled_true) simp
  moreover from assms
  have "fst (snd (checkServer (frontend_net e) FRONTEND_PORT 60000)) = Fulfilled True"
    unfolding services_ready_def frontend_probe_def by (intro fulfilled_true) simp
  ultimately show ?thesis
    by (simp add: whenReady_def Let_def case_prod_beta backend_probe_def frontend_probe_def
        after_backend_wait_def startBackend_def startFrontend_def)
qed

lemma whenReady_cases [case_names backend_rejected frontend_rejected ready]:
  assumes "\<not> is_fulfilled (fst (snd (backend_probe e))) \<Longrightarrow> P"
    and "is_fulfilled (fst (snd (backend_probe e))) \<Longrightarrow>
         \<not> is_fulfilled (fst (snd (frontend_probe e))) \<Longrightarrow> P"
    and "services_ready e \<Longrightarrow> P"
  shows P
  using assms unfolding services_ready_def by blast

lemma probe_started: "started (fst (backend_probe e)) = []" "started (fst (frontend_probe e)) = []"
  by (simp_all add: backend_probe_def frontend_probe_def checkServer_started)

lemma probe_signalled:
  "signalled (fst (backend_probe e)) = []" "signalled (fst (frontend_probe e)) = []"
  by (simp_all add: backend_probe_def frontend_probe_def checkServer_signalled)

lemma after_backend_wait_started: "started (fst (after_backend_wait e g)) = []"
  by (simp add: after_backend_wait_def on_exits_started)

lemma whenReady_started: "started (fst (whenReady e g)) = [backend_child e, frontend_child e]"
proof (cases rule: whenReady_cases [of e])
  case backend_rejected
  then show ?thesis
    by (simp add: whenReady_backend_rejected started_append probe_started
        after_backend_wait_started startup_failed_started startBackend_def startFrontend_def
        Let_def)
next
  case frontend_rejected
  then show ?thesis
    by (simp add: whenReady_frontend_rejected started_append probe_started
        after_backend_wait_started on_exits_started startup_failed_started startBackend_def
        startFrontend_def Let_def)
next
  case ready
  then show ?thesis
    by (simp add: whenReady_ready started_append probe_started after_backend_wait_started
        on_exits_started startBackend_def startFrontend_def createWindow_def Let_def)
qed

lemma whenReady_before_probe:
  "started (takeWhile (\<lambda>ev. \<not> is_probe ev) (fst (whenReady e g))) =
     [backend_child e, frontend_child e]"
proof -
  let ?pre = "[Log ''Price Optimizer AI starting...'', NewLoadingWindow]
      @ fst (startBackend e g) @ fst (startFrontend e (snd (startBackend e g)))
      @ [Log ''Waiting for backend to be ready...'']"
  have "\<exists>rest. fst (whenReady e g) = ?pre @ fst (backend_probe e) @ rest"
    by (cases rule: whenReady_cases [of e])
       (simp_all add: whenReady_backend_rejected whenReady_frontend_rejected whenReady_ready)
  then obtain rest where "fst (whenReady e g) = ?pre @ fst (backend_probe e) @ rest" by blast
  moreover have "\<forall>ev \<in> set ?pre. \<not> is_probe ev"
    by (simp add: startBackend_def startFrontend_def Let_def)
  ultimately have "takeWhile (\<lambda>ev. \<not> is_probe ev) (fst (whenReady e g)) = ?pre"
    unfolding backend_probe_def by (simp only: takeWhile_before_probe)
  then show ?thesis by (simp add: startBackend_def startFrontend_def Let_def)
qed

lemma after_backend_wait_tracked:
  "subseq (signalled (fst (after_backend_wait e g)) @ tracked (snd (after_backend_wait e g)))
     [backend_child e, frontend_child e]"
  using on_exits_tracked [of "during_backend_wait e"
      "g\<lparr>pythonProcess := Some (backend_child e), nextProcess := Some (frontend_child e)\<rparr>"]
  by (simp add: after_backend_wait_def tracked_def)

lemma whenReady_tracked:
  "subseq (signalled (fst (whenReady e g)) @ tracked (snd (whenReady e g)))
     [backend_child e, frontend_child e]"
proof (cases rule: whenReady_cases [of e])
  case backend_rejected
  have "tracked (snd (startup_failed g')) = []" for g'
    by (simp add: startup_failed_globals tracked_def)
  with after_backend_wait_tracked [of e g] backend_rejected show ?thesis
    by (simp add: whenReady_backend_rejected signalled_append probe_signalled
        startup_failed_signalled startBackend_def startFrontend_def Let_def)
next
  case frontend_rejected
  let ?g3 = "snd (after_backend_wait e g)"
  let ?c = "on_exits (during_frontend_wait e) ?g3"
  have gone: "tracked (snd (startup_failed g')) = []" for g'
    by (simp add: startup_failed_globals tracked_def)
  have "subseq (signalled (fst (after_backend_wait e g)) @ signalled (fst ?c) @ tracked (snd ?c))
      [backend_child e, frontend_child e]"
    using after_backend_wait_tracked on_exits_tracked by (rule subseq_chain)
  with frontend_rejected gone show ?thesis
    by (simp add: whenReady_frontend_rejected signalled_append probe_signalled
        startup_failed_signalled startBackend_def startFrontend_def Let_def)
next
  case ready
  let ?g3 = "snd (after_backend_wait e g)"
  let ?c = "on_exits (during_frontend_wait e) ?g3"
  have same: "tracked (snd (createWindow e g')) = tracked g'" for g'
    by (simp add: createWindow_def tracked_def)
  have "subseq (signalled (fst (after_backend_wait e g)) @ signalled (fst ?c) @ tracked (snd ?c))
      [backend_child e, frontend_child e]"
    using after_backend_wait_tracked on_exits_tracked by (rule subseq_chain)
  with ready same show ?thesis
    by (simp add: whenReady_ready signalled_append probe_signalled startBackend_def
        startFrontend_def createWindow_def Let_def)
qed

lemma whenReady_failed_last: "\<not> services_ready e \<Longrightarrow> last (fst (whenReady e g)) = AppQuit"
proof (cases rule: whenReady_cases [of e])
  case backend_rejected
  have "fst (startup_failed g') \<noteq> []" for g'
    by (simp add: startup_failed_def case_prod_beta)
  with backend_rejected show ?thesis
    by (simp add: whenReady_backend_rejected startup_failed_last)
next
  case frontend_rejected
  have "fst (startup_failed g') \<noteq> []" for g'
    by (simp add: startup_failed_def case_prod_beta)
  with frontend_rejected show ?thesis
    by (simp add: whenReady_frontend_rejected startup_failed_last)
next
  case ready
  assume "\<not> services_ready e"
  with ready show ?thesis by simp
qed

lemma whenReady_failed_tracked: "\<not> services_ready e \<Longrightarrow> tracked (snd (whenReady e g)) = []"
  by (cases rule: whenReady_cases [of e])
     (simp_all add: whenReady_backend_rejected whenReady_frontend_rejected
        startup_failed_globals tracked_def)

lemma whenReady_loads:
  "LoadURL FRONTEND_PORT \<in> set (fst (whenReady e g)) \<longleftrightarrow> services_ready e"
proof -
  have np: "LoadURL FRONTEND_PORT \<notin> set (fst (checkServer env port timeout))"
    for env port timeout
    using checkServer_is_probe [of "LoadURL FRONTEND_PORT" env port timeout] by auto
  have nf: "LoadURL FRONTEND_PORT \<notin> set (fst (startup_failed g'))" for g'
    using startup_failed_events [of "LoadURL FRONTEND_PORT" g' FRONTEND_PORT] by auto
  have nc: "LoadURL FRONTEND_PORT \<notin> set (fst (on_exits xs g'))" for xs g'
    using on_exits_events [of "LoadURL FRONTEND_PORT" xs g' FRONTEND_PORT] by auto
  show ?thesis
  proof (cases rule: whenReady_cases [of e])
    case backend_rejected
    then have "\<not> services_ready e" by (simp add: services_ready_def)
    with backend_rejected show ?thesis
      by (simp add: whenReady_backend_rejected np nf nc backend_probe_def
          after_backend_wait_def startBackend_def startFrontend_def Let_def)
  next
    case frontend_rejected
    then have "\<not> services_ready e" by (simp add: services_ready_def)
    with frontend_rejected show ?thesis
      by (simp add: whenReady_frontend_rejected np nf nc backend_probe_def frontend_probe_def
          after_backend_wait_def startBackend_def startFrontend_def Let_def)
  next
    case ready
    then show ?thesis by (simp add: whenReady_ready)
  qed
qed

lemma whenReady_window:
  "NewMainWindow (window e) \<in> set (fst (whenReady e g)) \<longleftrightarrow> services_ready e"
proof -
  have np: "NewMainWindow (window e) \<notin> set (fst (checkServer env port timeout))"
    for env port timeout
    using checkServer_is_probe [of "NewMainWindow (window e)" env port timeout] by auto
  have nf: "NewMainWindow (window e) \<notin> set (fst (startup_failed g'))" for g'
    using startup_failed_events [of "NewMainWindow (window e)" g' _ "window e"] by auto
  have nc: "NewMainWindow (window e) \<notin> set (fst (on_exits xs g'))" for xs g'
    using on_exits_events [of "NewMainWindow (window e)" xs g' _ "window e"] by auto
  show ?thesis
  proof (cases rule: whenReady_cases [of e])
    case backend_rejected
    then have "\<not> services_ready e" by (simp add: services_ready_def)
    with backend_rejected show ?thesis
      by (simp add: whenReady_backend_rejected np nf nc backend_probe_def
          after_backend_wait_def startBackend_def startFrontend_def Let_def)
  next
    case frontend_rejected
    then have "\<not> services_ready e" by (simp add: services_ready_def)
    with frontend_rejected show ?thesis
      by (simp add: whenReady_frontend_rejected np nf nc backend_probe_def frontend_probe_def
          after_backend_wait_def startBackend_def startFrontend_def Let_def)
  next
    case ready
    then show ?thesis by (simp add: whenReady_ready createWindow_def)
  qed
qed

lemma ready_signalled: "services_ready e \<Longrightarrow> signalled (fst (whenReady e g)) = []"
  by (simp add: whenReady_ready signalled_append probe_signalled on_exits_signalled
      after_backend_wait_def startBackend_def startFrontend_def createWindow_def Let_def)

lemma ready_no_quit:
  assumes "services_ready e"
  shows "AppQuit \<notin> set (fst (whenReady e g))"
proof -
  have q: "AppQuit \<notin> set (fst (checkServer env port timeout))" for env port timeout
    using checkServer_is_probe [of AppQuit env port timeout] by auto
  have nc: "AppQuit \<notin> set (fst (on_exits xs g'))" for xs g'
    using on_exits_events [of AppQuit xs g'] by auto
  show ?thesis
    by (simp add: whenReady_ready [OF assms] q nc backend_probe_def frontend_probe_def
        after_backend_wait_def startBackend_def startFrontend_def createWindow_def Let_def)
qed

lemma whenReady_no_frontend_probe:
  assumes "\<not> is_fulfilled (fst (snd (backend_probe e)))"
  shows "HttpRequest FRONTEND_PORT path \<notin> set (fst (whenReady e g))"
proof -
  have "HttpRequest FRONTEND_PORT path \<notin> set (fst (backend_probe e))"
    unfolding backend_probe_def
    by (rule checkServer_port) (simp add: FRONTEND_PORT_def BACKEND_PORT_def)
  moreover have "HttpRequest FRONTEND_PORT path \<notin> set (fst (startup_failed g'))" for g'
    using startup_failed_events [of "HttpRequest FRONTEND_PORT path" g'] by auto
  moreover have "HttpRequest FRONTEND_PORT path \<notin> set (fst (after_backend_wait e g))"
    using on_exits_events [of "HttpRequest FRONTEND_PORT path"]
    by (auto simp add: after_backend_wait_def)
  ultimately show ?thesis
    by (simp add: whenReady_backend_rejected [OF assms] startBackend_def startFrontend_def
        Let_def)
qed

lemma whenReady_rejected_signalled:
  assumes "\<not> is_fulfilled (fst (snd (backend_probe e)))"
  shows "signalled (fst (whenReady e g)) =
     signalled (fst (after_backend_wait e g)) @ tracked (snd (after_backend_wait e g))"
  by (simp add: whenReady_backend_rejected [OF assms] signalled_append probe_signalled
      startup_failed_signalled startBackend_def startFrontend_def Let_def)

lemma quiet_after_backend_wait:
  "quiet_startup e \<Longrightarrow>
   after_backend_wait e g =
     ([], g\<lparr>pythonProcess := Some (backend_child e), nextProcess := Some (frontend_child e)\<rparr>)"
  by (simp add: quiet_startup_def after_backend_wait_def)

lemma quiet_signalled:
  assumes "quiet_startup e"
  shows "signalled (fst (whenReady e g)) =
     (if services_ready e then [] else [backend_child e, frontend_child e])"
proof (cases rule: whenReady_cases [of e])
  case backend_rejected
  then have "\<not> services_ready e" by (simp add: services_ready_def)
  with backend_rejected assms show ?thesis
    by (simp add: whenReady_rejected_signalled quiet_after_backend_wait tracked_def)
next
  case frontend_rejected
  then have "\<not> services_ready e" by (simp add: services_ready_def)
  moreover from assms have "during_frontend_wait e = []" by (simp add: quiet_startup_def)
  ultimately show ?thesis
    using frontend_rejected assms
    by (simp add: whenReady_frontend_rejected signalled_append probe_signalled
        startup_failed_signalled quiet_after_backend_wait tracked_def startBackend_def
        startFrontend_def Let_def)
next
  case ready
  moreover from assms have "during_frontend_wait e = []" by (simp add: quiet_startup_def)
  ultimately show ?thesis
    using assms
    by (simp add: whenReady_ready signalled_append probe_signalled quiet_after_backend_wait
        startBackend_def startFrontend_def createWindow_def Let_def)
qed

lemma quiet_globals:
  assumes "quiet_startup e"
  shows "snd (whenReady e g) =
     (if services_ready e
      then g\<lparr>mainWindow := Some (window e), pythonProcess := Some (backend_child e),
             nextProcess := Some (frontend_child e)\<rparr>
      else g\<lparr>pythonProcess := None, nextProcess := None\<rparr>)"
proof -
  from assms have d: "during_frontend_wait e = []" by (simp add: quiet_startup_def)
  show ?thesis
    by (cases rule: whenReady_cases [of e])
       (simp_all add: whenReady_backend_rejected whenReady_frontend_rejected whenReady_ready
          quiet_after_backend_wait [OF assms] d startup_failed_globals createWindow_def
          services_ready_def)
qed

lemma quiet_ready_no_quit:
  assumes "quiet_startup e" and "services_ready e"
  shows "AppQuit \<notin> set (fst (whenReady e g))"
proof -
  from assms(1) have d: "during_frontend_wait e = []" by (simp add: quiet_startup_def)
  have q: "AppQuit \<notin> set (fst (checkServer env port timeout))" for env port timeout
    using checkServer_is_probe [of AppQuit env port timeout] by auto
  show ?thesis
    by (simp add: whenReady_ready [OF assms(2)] quiet_after_backend_wait [OF assms(1)] d q
        backend_probe_def frontend_probe_def startBackend_def startFrontend_def
        createWindow_def Let_def)
qed

lemma refusing_rejected:
  "fst (snd (checkServer refusing port timeout)) = Rejected port timeout"
  unfolding checkServer_def
  using check_failing [of refusing 1 port timeout 0] by (simp add: refusing_def)

lemma healthy_fulfilled:
  "checkServer healthy port timeout =
     ([HttpRequest port (probe_path port), Resolve True], Fulfilled True, 5)"
  unfolding checkServer_def using check_response [of healthy 0 200 5 port timeout 0]
  by (simp add: healthy_def)

lemma dead_backend_not_ready: "\<not> is_fulfilled (fst (snd (backend_probe dead_backend_env)))"
  by (simp add: backend_probe_def dead_backend_env_def dev_env_def refusing_rejected)

lemma crashed_backend_not_ready:
  "\<not> is_fulfilled (fst (snd (backend_probe crashed_backend_env)))"
  by (simp add: backend_probe_def crashed_backend_env_def dead_backend_env_def dev_env_def
      refusing_rejected)

lemma dev_env_ready: "services_ready dev_env"
  by (simp add: services_ready_def backend_probe_def frontend_probe_def dev_env_def
      healthy_fulfilled)

lemma dev_env_quiet: "quiet_startup dev_env"
  by (simp add: quiet_startup_def dev_env_def)

lemma dead_backend_quiet: "quiet_startup dead_backend_env"
  by (simp add: quiet_startup_def dead_backend_env_def dev_env_def)

lemma wait_ready_never:
  "\<forall>i. \<not> curl i \<Longrightarrow> Echo m \<notin> set (wait_ready url msg curl i k)"
  by (induction k arbitrary: i) simp_all

lemma start_script_status: "snd (start_script s) = 0"
  by (simp add: start_script_def sh_cleanup_def Let_def)

lemma window_all_closed_last:
  "platform e \<noteq> ''darwin'' \<Longrightarrow> last (fst (handler e WindowAllClosed g)) = AppQuit"
  by (simp add: case_prod_beta)

lemma teardown_signalled:
  assumes "i = WindowAllClosed \<or> i = QuitEvent \<or> i = UncaughtException"
  shows "signalled (fst (handler e i g)) = tracked g"
    and "started (fst (handler e i g)) = []"
  using assms
  by (auto simp add: case_prod_beta signalled_append started_append cleanup_signalled
      cleanup_started)

lemma exit_handlers:
  "handler e (BackendExit code sig) g = ([LogExit Backend code sig], g\<lparr>pythonProcess := None\<rparr>)"
  "handler e (FrontendExit code sig) g = ([LogExit Frontend code sig], g\<lparr>nextProcess := None\<rparr>)"
  by simp_all

lemma exit_after_startup:
  "signalled (fst (run e [AppReady, BackendExit code sig] g)) = signalled (fst (whenReady e g))"
  "nextProcess (snd (run e [AppReady, BackendExit code sig] g)) =
     nextProcess (snd (whenReady e g))"
  by (simp_all add: case_prod_beta signalled_append)

lemma exit_after_ready_startup:
  assumes r: "services_ready e"
  shows "signalled (fst (run e [AppReady, BackendExit code sig] g)) = []"
    and "AppQuit \<notin> set (fst (run e [AppReady, BackendExit code sig] g))"
  using ready_no_quit [OF r, of g] ready_signalled [OF r, of g]
  by (simp_all add: case_prod_beta signalled_append)

lemma exit_after_quiet_startup:
  assumes q: "quiet_startup e" and r: "services_ready e"
  shows "tracked (snd (run e [AppReady, BackendExit code sig] g)) = [frontend_child e]"
    and "signalled (fst (run e [AppReady, BackendExit code sig, QuitEvent] g)) =
      [frontend_child e]"
  using r
  by (simp_all add: case_prod_beta signalled_append quiet_signalled [OF q] quiet_globals [OF q]
      tracked_def cleanup_signalled)

lemma dev_env_started:
  "signalled (fst (whenReady dev_env initial)) = []"
  "tracked (snd (whenReady dev_env initial)) = [1, 2]"
  "started (fst (whenReady dev_env initial)) = [1, 2]"
proof -
  have ch: "backend_child dev_env = 1" "frontend_child dev_env = 2"
    by (simp_all add: dev_env_def)
  show "signalled (fst (whenReady dev_env initial)) = []"
    using dev_env_ready by (simp add: quiet_signalled [OF dev_env_quiet])
  show "tracked (snd (whenReady dev_env initial)) = [1, 2]"
    using dev_env_ready by (simp add: quiet_globals [OF dev_env_quiet] tracked_def ch)
  show "started (fst (whenReady dev_env initial)) = [1, 2]"
    by (simp add: whenReady_started ch)
qed

section \<open>Claims\<close>

text \<open>
  C1 (amended). The startup sequence spawns the backend and then the frontend before the
  first readiness request is sent, and spawns nothing else. It polls the backend before
  the frontend: when the backend's check is rejected, no request is sent to the frontend's
  port and no main window is created; the \<open>catch\<close> block signals the children that
  are still tracked at that moment, which leaves none tracked, and ends with
  \<open>app.quit()\<close>. These are both children unless one has exited during the wait, whose
  \<open>exit\<close> handler has then cleared its reference. The main window is created, and
  loaded with the frontend's address, exactly when both checks are fulfilled.
\<close>

theorem startup_spawns_before_probing:
  "started (takeWhile (\<lambda>ev. \<not> is_probe ev) (fst (whenReady e g))) =
     [backend_child e, frontend_child e] \<and>
   started (fst (whenReady e g)) = [backend_child e, frontend_child e] \<and>
   (\<not> is_fulfilled (fst (snd (backend_probe e))) \<longrightarrow>
      HttpRequest FRONTEND_PORT (probe_path FRONTEND_PORT) \<notin> set (fst (whenReady e g)) \<and>
      signalled (fst (whenReady e g)) = tracked (snd (after_backend_wait e g)) \<and>
      tracked (snd (whenReady e g)) = [] \<and>
      last (fst (whenReady e g)) = AppQuit) \<and>
   (\<not> is_fulfilled (fst (snd (backend_probe e))) \<and> quiet_startup e \<longrightarrow>
      signalled (fst (whenReady e g)) = [backend_child e, frontend_child e]) \<and>
   (NewMainWindow (window e) \<in> set (fst (whenReady e g)) \<longleftrightarrow> services_ready e) \<and>
   (LoadURL FRONTEND_PORT \<in> set (fst (whenReady e g)) \<longleftrightarrow> services_ready e)"
proof -
  have failed: "HttpRequest FRONTEND_PORT (probe_path FRONTEND_PORT) \<notin> set (fst (whenReady e g)) \<and>
      signalled (fst (whenReady e g)) = tracked (snd (after_backend_wait e g)) \<and>
      tracked (snd (whenReady e g)) = [] \<and>
      last (fst (whenReady e g)) = AppQuit"
    if rej: "\<not> is_fulfilled (fst (snd (backend_probe e)))"
  proof -
    from rej have nr: "\<not> services_ready e" by (simp add: services_ready_def)
    with rej show ?thesis
      by (simp add: whenReady_no_frontend_probe whenReady_rejected_signalled
          whenReady_failed_last whenReady_failed_tracked after_backend_wait_def
          on_exits_signalled)
  qed
  have quiet: "signalled (fst (whenReady e g)) = [backend_child e, frontend_child e]"
    if rej: "\<not> is_fulfilled (fst (snd (backend_probe e)))" and q: "quiet_startup e"
  proof -
    from rej have nr: "\<not> services_ready e" by (simp add: services_ready_def)
    with q show ?thesis by (simp add: quiet_signalled)
  qed
  from failed quiet show ?thesis
    using whenReady_before_probe [of e g] whenReady_started [of e g] whenReady_loads [of e g]
      whenReady_window [of e g]
    by blast
qed

theorem startup_spawns_before_probing_witness:
  "\<not> is_fulfilled (fst (snd (backend_probe crashed_backend_env))) \<and>
   started (takeWhile (\<lambda>ev. \<not> is_probe ev) (fst (whenReady crashed_backend_env initial))) =
     [1, 2] \<and>
   signalled (fst (whenReady crashed_backend_env initial)) = [2] \<and>
   \<not> is_fulfilled (fst (snd (backend_probe dead_backend_env))) \<and>
   quiet_startup dead_backend_env \<and>
   signalled (fst (whenReady dead_backend_env initial)) = [1, 2] \<and>
   NewMainWindow 7 \<notin> set (fst (whenReady dead_backend_env initial)) \<and>
   LoadURL 3000 \<notin> set (fst (whenReady dead_backend_env initial))"
  using startup_spawns_before_probing [of crashed_backend_env initial]
    startup_spawns_before_probing [of dead_backend_env initial]
    crashed_backend_not_ready dead_backend_not_ready dead_backend_quiet
  by (simp add: services_ready_def after_backend_wait_def crashed_backend_env_def
      dead_backend_env_def dev_env_def tracked_def FRONTEND_PORT_def)

theorem frontend_spawned_counterexample:
  "fst (snd (backend_probe dead_backend_env)) = Rejected 8000 60000 \<and>
   last (fst (whenReady dead_backend_env initial)) = AppQuit \<and>
   started (fst (whenReady dead_backend_env initial)) = [1, 2] \<and>
   Spawn Frontend 2 ''pnpm'' [''start''] \<in> set (fst (whenReady dead_backend_env initial)) \<and>
   Echo ''Backend is ready!'' \<notin> set (fst (start_script dead_backend_sh)) \<and>
   Background Frontend \<in> set (fst (start_script dead_backend_sh))"
proof -
  have rej: "fst (snd (backend_probe dead_backend_env)) = Rejected 8000 60000"
    by (simp add: backend_probe_def dead_backend_env_def dev_env_def refusing_rejected
        BACKEND_PORT_def)
  have nf: "\<not> is_fulfilled (fst (snd (backend_probe dead_backend_env)))"
    by (rule dead_backend_not_ready)
  then have nr: "\<not> services_ready dead_backend_env" by (simp add: services_ready_def)
  have sp: "Spawn Frontend 2 ''pnpm'' [''start''] \<in> set (fst (whenReady dead_backend_env initial))"
    unfolding whenReady_backend_rejected [OF nf]
    by (simp add: startFrontend_def dead_backend_env_def dev_env_def)
  have sh: "Echo ''Backend is ready!'' \<notin> set (fst (start_script dead_backend_sh)) \<and>
      Background Frontend \<in> set (fst (start_script dead_backend_sh))"
    by (simp add: start_script_def dead_backend_sh_def sh_cleanup_def wait_ready_never
        never_up_def)
  from rej sp sh show ?thesis
    using whenReady_started [of dead_backend_env initial] nr
    by (simp add: whenReady_failed_last dead_backend_env_def dev_env_def)
qed

text \<open>
  C2 (amended). Every teardown signals the tracked processes backend first and frontend
  second, the order in which they were started, not the reverse. This holds in every
  state for the teardown that a failed startup runs in its \<open>catch\<close> block and for the
  one that the \<open>window-all-closed\<close>, \<open>quit\<close> or \<open>uncaughtException\<close> handler runs.
  Whichever children exit during the startup, the signals sent in a startup and in a
  teardown that follows it are the started children in their start order, with those
  left out that had exited before; when no child exits, they are both children.
\<close>

theorem teardown_in_start_order:
  "i \<in> {WindowAllClosed, QuitEvent, UncaughtException} \<Longrightarrow>
   signalled (fst (handler e i g)) = tracked g \<and>
   signalled (fst (startup_failed g)) = tracked g \<and>
   (pythonProcess g = Some b \<and> nextProcess g = Some f \<longrightarrow> tracked g = [b, f]) \<and>
   started (fst (run e [AppReady, i] g)) = [backend_child e, frontend_child e] \<and>
   subseq (signalled (fst (whenReady e g))) [backend_child e, frontend_child e] \<and>
   subseq (signalled (fst (run e [AppReady, i] g))) [backend_child e, frontend_child e] \<and>
   (quiet_startup e \<longrightarrow>
      signalled (fst (run e [AppReady, i] g)) = [backend_child e, frontend_child e]) \<and>
   (quiet_startup e \<and> \<not> services_ready e \<longrightarrow>
      signalled (fst (whenReady e g)) = [backend_child e, frontend_child e])"
proof -
  assume "i \<in> {WindowAllClosed, QuitEvent, UncaughtException}"
  then have i: "i = WindowAllClosed \<or> i = QuitEvent \<or> i = UncaughtException" by simp
  note td = teardown_signalled [OF i]
  have st: "started (fst (run e [AppReady, i] g)) = [backend_child e, frontend_child e]"
    unfolding run_two by (simp add: started_append td whenReady_started)
  have sg: "signalled (fst (run e [AppReady, i] g)) =
      signalled (fst (whenReady e g)) @ tracked (snd (whenReady e g))"
    unfolding run_two by (simp add: signalled_append td)
  have all: "subseq (signalled (fst (run e [AppReady, i] g))) [backend_child e, frontend_child e]"
    unfolding sg by (rule whenReady_tracked)
  have "subseq (signalled (fst (whenReady e g)))
      (signalled (fst (whenReady e g)) @ tracked (snd (whenReady e g)))"
    by (rule list_emb_prefix) simp
  then have part: "subseq (signalled (fst (whenReady e g))) [backend_child e, frontend_child e]"
    using whenReady_tracked by (rule subseq_order.order_trans)
  have quiet: "signalled (fst (run e [AppReady, i] g)) = [backend_child e, frontend_child e]"
    if "quiet_startup e"
    unfolding sg using that by (simp add: quiet_signalled quiet_globals tracked_def)
  have "tracked g = [b, f]" if "pythonProcess g = Some b \<and> nextProcess g = Some f"
    using that by (simp add: tracked_def)
  with td(1) st all part quiet show ?thesis
    by (simp add: startup_failed_signalled quiet_signalled)
qed

theorem teardown_in_start_order_witness:
  "WindowAllClosed \<in> {WindowAllClosed, QuitEvent, UncaughtException} \<and>
   pythonProcess both_running = Some 1 \<and> nextProcess both_running = Some 2 \<and>
   signalled (fst (startup_failed both_running)) = [1, 2] \<and>
   quiet_startup dead_backend_env \<and> \<not> services_ready dead_backend_env \<and>
   signalled (fst (run dead_backend_env [AppReady, WindowAllClosed] both_running)) = [1, 2] \<and>
   signalled (fst (whenReady dead_backend_env both_running)) = [1, 2]"
proof -
  have nr: "\<not> services_ready dead_backend_env"
    using dead_backend_not_ready by (simp add: services_ready_def)
  have ch: "backend_child dead_backend_env = 1" "frontend_child dead_backend_env = 2"
    by (simp_all add: dead_backend_env_def dev_env_def)
  have refs: "pythonProcess both_running = Some 1 \<and> nextProcess both_running = Some 2"
    by (simp add: both_running_def)
  have tr: "tracked both_running = [1, 2]" by (simp add: both_running_def tracked_def)
  from teardown_in_start_order
    [where i = WindowAllClosed and e = dead_backend_env and g = both_running
       and b = 1 and f = 2]
    nr dead_backend_quiet refs
  show ?thesis by (simp add: ch tr del: run.simps handler.simps)
qed

theorem teardown_order_counterexample:
  "started (fst (run dev_env [AppReady, WindowAllClosed] initial)) = [1, 2] \<and>
   signalled (fst (run dev_env [AppReady, WindowAllClosed] initial)) = [1, 2] \<and>
   signalled (fst (run dev_env [AppReady, WindowAllClosed] initial)) \<noteq>
     rev (started (fst (run dev_env [AppReady, WindowAllClosed] initial)))"
proof -
  have ready: "handler dev_env AppReady initial = whenReady dev_env initial" by simp
  have "signalled (fst (run dev_env [AppReady, WindowAllClosed] initial)) = [1, 2]"
    unfolding run_two ready
    by (simp add: signalled_append teardown_signalled dev_env_started del: handler.simps)
  moreover have "started (fst (run dev_env [AppReady, WindowAllClosed] initial)) = [1, 2]"
    unfolding run_two ready
    by (simp add: started_append teardown_signalled dev_env_started del: handler.simps)
  ultimately show ?thesis by simp
qed




text \<open>
  C4 (amended). When a child exits on its own, the \<open>exit\<close> handler prints the code and
  the signal and sets that child's reference to null, and nothing more: no signal is
  sent, the other child stays tracked and running, the main window stays, and the app
  does not quit. After any startup, an exit of the backend adds no signal and leaves the
  frontend's reference as it was; after a startup that succeeded, no signal has been sent
  and the app has not quit; when in addition no child exited during the startup, the
  frontend is still tracked, and a later cleanup signals only the frontend.
\<close>

theorem child_exit_only_forgets:
  "handler e (BackendExit code sig) g = ([LogExit Backend code sig], g\<lparr>pythonProcess := None\<rparr>) \<and>
   handler e (FrontendExit code sig) g = ([LogExit Frontend code sig], g\<lparr>nextProcess := None\<rparr>) \<and>
   signalled (fst (handler e (BackendExit code sig) g)) = [] \<and>
   signalled (fst (handler e (FrontendExit code sig) g)) = [] \<and>
   AppQuit \<notin> set (fst (handler e (BackendExit code sig) g)) \<and>
   AppQuit \<notin> set (fst (handler e (FrontendExit code sig) g)) \<and>
   nextProcess (snd (handler e (BackendExit code sig) g)) = nextProcess g \<and>
   pythonProcess (snd (handler e (FrontendExit code sig) g)) = pythonProcess g \<and>
   signalled (fst (run e [AppReady, BackendExit code sig] g)) = signalled (fst (whenReady e g)) \<and>
   nextProcess (snd (run e [AppReady, BackendExit code sig] g)) =
     nextProcess (snd (whenReady e g)) \<and>
   (services_ready e \<longrightarrow>
      signalled (fst (run e [AppReady, BackendExit code sig] g)) = [] \<and>
      AppQuit \<notin> set (fst (run e [AppReady, BackendExit code sig] g))) \<and>
   (quiet_startup e \<and> services_ready e \<longrightarrow>
      tracked (snd (run e [AppReady, BackendExit code sig] g)) = [frontend_child e] \<and>
      signalled (fst (run e [AppReady, BackendExit code sig, QuitEvent] g)) = [frontend_child e])"
proof -
  have "signalled (fst (run e [AppReady, BackendExit code sig] g)) = [] \<and>
      AppQuit \<notin> set (fst (run e [AppReady, BackendExit code sig] g))"
    if "services_ready e"
    using that exit_after_ready_startup [of e code sig g] by blast
  moreover have "tracked (snd (run e [AppReady, BackendExit code sig] g)) = [frontend_child e] \<and>
      signalled (fst (run e [AppReady, BackendExit code sig, QuitEvent] g)) = [frontend_child e]"
    if "quiet_startup e \<and> services_ready e"
    using that exit_after_quiet_startup [of e code sig g] by blast
  moreover have "signalled (fst (handler e (BackendExit code sig) g)) = []"
    and "signalled (fst (handler e (FrontendExit code sig) g)) = []"
    and "AppQuit \<notin> set (fst (handler e (BackendExit code sig) g))"
    and "AppQuit \<notin> set (fst (handler e (FrontendExit code sig) g))"
    and "nextProcess (snd (handler e (BackendExit code sig) g)) = nextProcess g"
    and "pythonProcess (snd (handler e (FrontendExit code sig) g)) = pythonProcess g"
    by simp_all
  ultimately show ?thesis
    using exit_handlers [of e code sig g] exit_after_startup [of e code sig g] by blast
qed

theorem child_exit_only_forgets_witness:
  "quiet_startup dev_env \<and> services_ready dev_env \<and>
   signalled (fst (run dev_env [AppReady, BackendExit (Some 1) None] initial)) = [] \<and>
   tracked (snd (run dev_env [AppReady, BackendExit (Some 1) None] initial)) = [2] \<and>
   signalled (fst (run dev_env [AppReady, BackendExit (Some 1) None, QuitEvent] initial)) = [2]"
proof -
  have ch: "frontend_child dev_env = 2" by (simp add: dev_env_def)
  from child_exit_only_forgets
    [where e = dev_env and code = "Some 1" and sig = None and g = initial]
    dev_env_ready dev_env_quiet
  have "signalled (fst (run dev_env [AppReady, BackendExit (Some 1) None] initial)) = [] \<and>
      tracked (snd (run dev_env [AppReady, BackendExit (Some 1) None] initial)) =
        [frontend_child dev_env] \<and>
      signalled (fst (run dev_env [AppReady, BackendExit (Some 1) None, QuitEvent] initial)) =
        [frontend_child dev_env]"
    by blast
  with dev_env_ready dev_env_quiet show ?thesis
    by (simp add: ch del: run.simps handler.simps)
qed

theorem child_exit_counterexample:
  "mainWindow (snd (run dev_env [AppReady] initial)) = Some 7 \<and>
   signalled (fst (run dev_env [AppReady, BackendExit (Some 1) None] initial)) = [] \<and>
   AppQuit \<notin> set (fst (run dev_env [AppReady, BackendExit (Some 1) None] initial)) \<and>
   nextProcess (snd (run dev_env [AppReady, BackendExit (Some 1) None] initial)) = Some 2"
proof -
  have w: "whenReady dev_env initial =
     ([Log ''Price Optimizer AI starting...'', NewLoadingWindow,
       Log ''Starting Python backend...'',
       Spawn Backend 1 ''uv''
         [''run'', ''uvicorn'', ''api.main:app'', ''--host'', ''127.0.0.1'', ''--port'', ''8000''],
       Log ''Starting Next.js frontend...'', Spawn Frontend 2 ''pnpm'' [''start''],
       Log ''Waiting for backend to be ready...'',
       HttpRequest 8000 ''/routes/health'', Resolve True,
       Log ''Backend is ready!'', Log ''Waiting for frontend to be ready...'',
       HttpRequest 3000 ''/'', Resolve True,
       Log ''Frontend is ready!'', CloseLoadingWindow, NewMainWindow 7, SetApplicationMenu,
       LoadURL 3000],
      \<lparr>mainWindow = Some 7, pythonProcess = Some 1, nextProcess = Some 2\<rparr>)"
    by (simp add: whenReady_def startBackend_def startFrontend_def createWindow_def Let_def
        dev_env_def healthy_fulfilled initial_def probe_path_def BACKEND_PORT_def
        FRONTEND_PORT_def)
  show ?thesis by (simp add: w)
qed

text \<open>
  C5 (amended). \<open>cleanup\<close> sends each tracked process one \<open>SIGTERM\<close> and no other
  signal, sets no timer, and drops both references at once, whether or not the processes
  have exited: there is no grace period and no forceful kill. A tracked process that does
  not ignore \<open>SIGTERM\<close> is not alive afterwards.
\<close>

theorem cleanup_sigterm_only:
  "signalled (fst (cleanup g)) = tracked g \<and>
   (\<forall>ev \<in> set (fst (cleanup g)). \<not> forceful ev \<and> \<not> is_probe ev) \<and>
   tracked (snd (cleanup g)) = [] \<and>
   (\<forall>h \<in> set (tracked g).
      \<not> ignores_term (ps h) \<longrightarrow> \<not> alive (os_effect (fst (cleanup g)) ps h))"
  using cleanup_gentle [of _ g] os_effect_cleanup [of _ g ps]
  by (simp add: cleanup_signalled cleanup_globals tracked_def)

theorem cleanup_sigterm_only_witness:
  "Kill 1 ''SIGTERM'' \<in> set (fst (cleanup both_running)) \<and>
   \<not> forceful (Kill 1 ''SIGTERM'') \<and>
   2 \<in> set (tracked both_running) \<and> \<not> ignores_term (stubborn 2) \<and>
   \<not> alive (os_effect (fst (cleanup both_running)) stubborn 2) \<and>
   signalled (fst (cleanup both_running)) = [1, 2]"
  using cleanup_sigterm_only [of both_running stubborn]
  by (simp add: cleanup_def both_running_def tracked_def stubborn_def deliver_def)

theorem ignored_sigterm_counterexample:
  "ignores_term (stubborn 1) \<and>
   signalled (fst (run dev_env [WindowAllClosed, QuitEvent] both_running)) = [1, 2] \<and>
   alive (os_effect (fst (run dev_env [WindowAllClosed, QuitEvent] both_running)) stubborn 1) \<and>
   tracked (snd (run dev_env [WindowAllClosed, QuitEvent] both_running)) = []"
  by (simp add: cleanup_def both_running_def tracked_def stubborn_def deliver_def dev_env_def)




text \<open>
  C7 (amended). The launcher script exits with status 0 however it ends, because its
  \<open>EXIT\<close> trap runs \<open>exit 0\<close>: also when a command fails during startup or the
  services never answer. The Electron entry point ends a failed startup with
  \<open>app.quit()\<close>, the call that also ends a normal session when the last window is
  closed, and passes no exit code in either case.
\<close>

theorem exit_status_always_zero:
  "snd (start_script s) = 0 \<and>
   (\<not> services_ready e \<longrightarrow> last (fst (whenReady e g)) = AppQuit) \<and>
   (platform e \<noteq> ''darwin'' \<longrightarrow> last (fst (handler e WindowAllClosed g)) = AppQuit)"
  by (simp add: start_script_status whenReady_failed_last window_all_closed_last
      del: handler.simps)

theorem exit_status_always_zero_witness:
  "\<not> services_ready dead_backend_env \<and> platform dead_backend_env \<noteq> ''darwin'' \<and>
   snd (start_script dead_backend_sh) = 0 \<and>
   last (fst (whenReady dead_backend_env initial)) = AppQuit \<and>
   last (fst (handler dead_backend_env WindowAllClosed both_running)) = AppQuit"
  using exit_status_always_zero [of dead_backend_sh dead_backend_env initial]
    exit_status_always_zero [of dead_backend_sh dead_backend_env both_running]
    dead_backend_not_ready
  by (simp add: services_ready_def dead_backend_env_def dev_env_def del: handler.simps)

theorem exit_status_counterexample:
  "electron_status dead_backend_sh = 1 \<and>
   Echo ''Backend is ready!'' \<notin> set (fst (start_script dead_backend_sh)) \<and>
   snd (start_script dead_backend_sh) = 0 \<and>
   snd (start_script (dead_backend_sh\<lparr>api_dir := False\<rparr>)) = 0"
  by (simp add: start_script_def dead_backend_sh_def sh_cleanup_def wait_ready_never
      never_up_def)

text \<open>
  C8. Shutdown is idempotent: invoking \<open>cleanup\<close> \<open>N\<close> times (here through the
  \<open>quit\<close> handler) gives the events of one teardown, with one \<open>SIGTERM\<close> for each
  process that was tracked, followed by \<open>N - 1\<close> calls that send no signal and only
  print the "Cleaning up..." line; afterwards no process is tracked, and a further call
  leaves the references as they are.
\<close>

theorem shutdown_idempotent:
  "0 < N \<Longrightarrow>
   run e (replicate N QuitEvent) g =
     (fst (cleanup g) @ replicate (N - 1) (Log ''Cleaning up...''), snd (cleanup g)) \<and>
   signalled (fst (run e (replicate N QuitEvent) g)) = tracked g \<and>
   tracked (snd (run e (replicate N QuitEvent) g)) = [] \<and>
   cleanup (snd (cleanup g)) = ([Log ''Cleaning up...''], snd (cleanup g))"
proof -
  assume "0 < N"
  then obtain n where N: "N = Suc n" by (cases N) auto
  have rest: "run e (replicate n QuitEvent) (snd (cleanup g)) =
      (replicate n (Log ''Cleaning up...''), snd (cleanup g))"
    by (rule run_quit_untracked) (simp_all add: cleanup_globals)
  have first: "run e (replicate N QuitEvent) g =
      (fst (cleanup g) @ replicate (N - 1) (Log ''Cleaning up...''), snd (cleanup g))"
    using rest by (simp add: N case_prod_beta)
  have quiet: "signalled (replicate n (Log ''Cleaning up...'')) = []"
    by (induction n) simp_all
  have sig: "signalled (fst (run e (replicate N QuitEvent) g)) = tracked g"
    unfolding first by (simp add: N signalled_append cleanup_signalled quiet)
  have gone: "tracked (snd (run e (replicate N QuitEvent) g)) = []"
    unfolding first by (simp add: cleanup_globals tracked_def)
  from first sig gone cleanup_again [of g] show ?thesis by blast
qed

theorem shutdown_idempotent_witness:
  "run dev_env (replicate 3 QuitEvent) both_running =
     ([Log ''Cleaning up...'', Log ''Stopping backend...'', Kill 1 ''SIGTERM'',
       Log ''Stopping frontend...'', Kill 2 ''SIGTERM'',
       Log ''Cleaning up...'', Log ''Cleaning up...''],
      \<lparr>mainWindow = Some 7, pythonProcess = None, nextProcess = None\<rparr>)"
  using shutdown_idempotent [of 3 dev_env both_running]
  by (simp add: cleanup_def both_running_def numeral_3_eq_3 tracked_def)



text \<open>
  C10 (amended). On macOS (\<open>process.platform\<close> is \<open>darwin\<close>) the \<open>window-all-closed\<close>
  handler runs cleanup, which sends \<open>SIGTERM\<close> to each tracked child and leaves none
  tracked, and does not call \<open>app.quit()\<close>. A tracked child that does not ignore
  \<open>SIGTERM\<close> is not alive afterwards. An \<open>activate\<close> event that then finds no open
  window creates the main window again and spawns nothing: both service references stay
  null.
\<close>

theorem darwin_close_then_activate:
  "platform e = ''darwin'' \<Longrightarrow>
   signalled (fst (handler e WindowAllClosed g)) = tracked g \<and>
   (\<forall>ev \<in> set (fst (handler e WindowAllClosed g)). \<not> forceful ev) \<and>
   (\<forall>h \<in> set (tracked g).
      \<not> ignores_term (ps h) \<longrightarrow>
      \<not> alive (os_effect (fst (handler e WindowAllClosed g)) ps h)) \<and>
   AppQuit \<notin> set (fst (handler e WindowAllClosed g)) \<and>
   tracked (snd (handler e WindowAllClosed g)) = [] \<and>
   fst (handler e (Activate 0) (snd (handler e WindowAllClosed g))) =
     [NewMainWindow (window e), SetApplicationMenu] \<and>
   started (fst (run e [WindowAllClosed, Activate 0] g)) = [] \<and>
   AppQuit \<notin> set (fst (run e [WindowAllClosed, Activate 0] g)) \<and>
   snd (run e [WindowAllClosed, Activate 0] g) =
     g\<lparr>mainWindow := Some (window e), pythonProcess := None, nextProcess := None\<rparr>"
  using cleanup_gentle [of _ g] os_effect_cleanup [of _ g ps]
  by (simp add: case_prod_beta cleanup_signalled cleanup_quit cleanup_globals cleanup_started
      started_append createWindow_def tracked_def)

theorem darwin_close_then_activate_witness:
  "platform mac_env = ''darwin'' \<and>
   signalled (fst (handler mac_env WindowAllClosed both_running)) = [1, 2] \<and>
   Kill 2 ''SIGTERM'' \<in> set (fst (handler mac_env WindowAllClosed both_running)) \<and>
   \<not> forceful (Kill 2 ''SIGTERM'') \<and>
   2 \<in> set (tracked both_running) \<and> \<not> ignores_term (stubborn 2) \<and>
   \<not> alive (os_effect (fst (handler mac_env WindowAllClosed both_running)) stubborn 2) \<and>
   run mac_env [WindowAllClosed, Activate 0] both_running =
     ([Log ''Cleaning up...'', Log ''Stopping backend...'', Kill 1 ''SIGTERM'',
       Log ''Stopping frontend...'', Kill 2 ''SIGTERM'', NewMainWindow 7, SetApplicationMenu],
      \<lparr>mainWindow = Some 7, pythonProcess = None, nextProcess = None\<rparr>)"
  using darwin_close_then_activate [of mac_env both_running stubborn]
  by (simp add: mac_env_def dev_env_def both_running_def cleanup_def createWindow_def
      tracked_def stubborn_def deliver_def)

theorem darwin_close_counterexample:
  "platform mac_env = ''darwin'' \<and> ignores_term (stubborn 1) \<and>
   signalled (fst (handler mac_env WindowAllClosed both_running)) = [1, 2] \<and>
   alive (os_effect (fst (handler mac_env WindowAllClosed both_running)) stubborn 1) \<and>
   tracked (snd (handler mac_env WindowAllClosed both_running)) = []"
  by (simp add: mac_env_def dev_env_def both_running_def cleanup_def tracked_def stubborn_def
      deliver_def)

end
